theory Spec2Isabelle
  imports Main
begin

section \<open>Stored data\<close>

text \<open>
  Modelled from the spec: the model classes of \<^verbatim>\<open>users.models\<close> (User and the models
  behind the relations \<^verbatim>\<open>vps\<close> and \<^verbatim>\<open>application\<close>) are imported by
  \<^verbatim>\<open>users/views.py\<close> but their declarations are not among the sources. The spec's data model
  says that a user has zero or more associated virtual-resource records and zero or more
  associated application records. Each table is a list of rows; a related row carries its own
  primary key and the primary key of the user it is associated with. Counts are SQL integers,
  read by Python as unbounded \<open>int\<close>.
\<close>

record user_row =
  user_id :: int
  email :: string

record vps_row =
  vps_id :: int
  vps_user_id :: int

record application_row =
  application_id :: int
  application_user_id :: int

record database =
  users :: "user_row list"
  vps :: "vps_row list"
  applications :: "application_row list"

text \<open>
  \<^verbatim>\<open>self.request.user.id\<close>: the primary key of the requesting user; an anonymous user has
  none (\<open>None\<close>), an authenticated one has \<open>Some k\<close>.
\<close>

record request =
  request_user_id :: "int option"

section \<open>Conditional expressions\<close>

text \<open>
  The lookups that the views apply to the annotation \<^verbatim>\<open>vps_count\<close>:
  \<^verbatim>\<open>vps_count__range=[lo, hi]\<close> is SQL's \<^verbatim>\<open>BETWEEN lo AND hi\<close> (both ends included) and
  \<^verbatim>\<open>vps_count__gte=k\<close> is \<^verbatim>\<open>>= k\<close>.
\<close>

datatype lookup = Range int int | Gte int

text \<open>\<^verbatim>\<open>When(<lookup>, then=Value(s, output_field=CharField()))\<close>\<close>

datatype when_clause = When lookup string

text \<open>\<^verbatim>\<open>Case(*whens, default=Value(s, output_field=CharField()))\<close>\<close>

datatype case_expression = Case "when_clause list" string

fun holds :: "lookup \<Rightarrow> int \<Rightarrow> bool" where
  "holds (Range lo hi) n = (lo \<le> n \<and> n \<le> hi)"
| "holds (Gte k) n = (k \<le> n)"

text \<open>
  A \<^verbatim>\<open>Case\<close> expression is a searched \<^verbatim>\<open>CASE WHEN ... THEN ... ELSE ... END\<close>: the
  clauses are tried in the order written, the first one whose condition holds gives the
  value, and the default is the value when none holds.
\<close>

fun first_match :: "when_clause list \<Rightarrow> string \<Rightarrow> int \<Rightarrow> string" where
  "first_match [] d n = d"
| "first_match (When c v # ws) d n = (if holds c n then v else first_match ws d n)"

fun evaluate :: "case_expression \<Rightarrow> int \<Rightarrow> string" where
  "evaluate (Case ws d) n = first_match ws d n"

text \<open>The \<^verbatim>\<open>workload\<close> annotation of \<^verbatim>\<open>UserMeViewSet.get_object\<close> (lines 59 to 64).\<close>

definition get_object_workload :: case_expression where
  "get_object_workload =
     Case [When (Range 1 3) ''EASY'',
           When (Range 3 8) ''MEDIUM'',
           When (Gte 9) ''HARD'']
          ''VERY_EASY''"

text \<open>The \<^verbatim>\<open>workload\<close> annotation of \<^verbatim>\<open>UserViewSet.get_queryset\<close> (lines 84 to 89).\<close>

definition get_queryset_workload :: case_expression where
  "get_queryset_workload =
     Case [When (Range 1 3) ''EASY'',
           When (Range 3 8) ''MEDIUM'',
           When (Gte 9) ''HARD'']
          ''VERY_EASY''"

text \<open>
  The rule table of the specification, written from the spec's words and not from the code:
  an ordered list of (condition, label) pairs, the first match wins, and \<open>VERY_EASY\<close> when
  no rule applies.
\<close>

definition spec_rules :: "((int \<Rightarrow> bool) \<times> string) list" where
  "spec_rules =
     [(\<lambda>n. 1 \<le> n \<and> n \<le> 3, ''EASY''),
      (\<lambda>n. 3 \<le> n \<and> n \<le> 8, ''MEDIUM''),
      (\<lambda>n. 9 \<le> n, ''HARD'')]"

fun spec_first_match :: "((int \<Rightarrow> bool) \<times> string) list \<Rightarrow> int \<Rightarrow> string" where
  "spec_first_match [] n = ''VERY_EASY''"
| "spec_first_match ((p, l) # rs) n = (if p n then l else spec_first_match rs n)"

definition spec_classify :: "int \<Rightarrow> string" where
  "spec_classify n = spec_first_match spec_rules n"

definition workload_labels :: "string list" where
  "workload_labels = [''VERY_EASY'', ''EASY'', ''MEDIUM'', ''HARD'']"

section \<open>Aggregation over the joined relations\<close>

text \<open>
  \<^verbatim>\<open>annotate(vps_count=Count("vps"), ..., applications_deployed=Count("application",
  distinct=True))\<close> aggregates over two multi-valued relations in one query. The ORM compiles
  this to a single \<^verbatim>\<open>SELECT\<close> with one \<^verbatim>\<open>LEFT OUTER JOIN\<close> per relation, grouped by the
  user's primary key:

  \<^verbatim>\<open>SELECT user.*, COUNT(vps.id), CASE ... END, COUNT(DISTINCT application.id)
  FROM user LEFT OUTER JOIN vps ON (user.id = vps.user_id)
            LEFT OUTER JOIN application ON (user.id = application.user_id)
  GROUP BY user.id\<close>

  A left outer join keeps a user with no related row, with a \<^verbatim>\<open>NULL\<close> in the related
  columns.
\<close>

definition left_outer :: "'a list \<Rightarrow> 'a option list" where
  "left_outer xs = (case xs of [] \<Rightarrow> [None] | _ # _ \<Rightarrow> map Some xs)"

definition joined_rows :: "database \<Rightarrow> user_row \<Rightarrow> (vps_row option \<times> application_row option) list" where
  "joined_rows db u =
     List.product
       (left_outer (filter (\<lambda>v. vps_user_id v = user_id u) (vps db)))
       (left_outer (filter (\<lambda>a. application_user_id a = user_id u) (applications db)))"

text \<open>\<^verbatim>\<open>COUNT\<close> skips \<^verbatim>\<open>NULL\<close>.\<close>

fun non_null :: "'a option list \<Rightarrow> 'a list" where
  "non_null [] = []"
| "non_null (None # xs) = non_null xs"
| "non_null (Some x # xs) = x # non_null xs"

text \<open>\<^verbatim>\<open>Count(col)\<close> is \<^verbatim>\<open>COUNT(col)\<close>: the number of rows of the group where the column is not null.\<close>

definition Count :: "'a option list \<Rightarrow> int" where
  "Count col = int (length (non_null col))"

text \<open>\<^verbatim>\<open>Count(col, distinct=True)\<close> is \<^verbatim>\<open>COUNT(DISTINCT col)\<close>.\<close>

definition Count_distinct :: "'a option list \<Rightarrow> int" where
  "Count_distinct col = int (length (remdups (non_null col)))"

text \<open>A row of the annotated queryset: the stored user and the three computed attributes.\<close>

record annotated_user =
  user :: user_row
  vps_count :: int
  workload :: string
  applications_deployed :: int

definition annotate_row :: "case_expression \<Rightarrow> database \<Rightarrow> user_row \<Rightarrow> annotated_user" where
  "annotate_row workload_expr db u =
     (let rows = joined_rows db u;
          n = Count (map (\<lambda>r. map_option vps_id (fst r)) rows)
      in \<lparr>user = u,
          vps_count = n,
          workload = evaluate workload_expr n,
          applications_deployed = Count_distinct (map (\<lambda>r. map_option application_id (snd r)) rows)\<rparr>)"

definition annotate :: "case_expression \<Rightarrow> database \<Rightarrow> user_row list \<Rightarrow> annotated_user list" where
  "annotate workload_expr db qs = map (annotate_row workload_expr db) qs"

section \<open>Queryset operations\<close>

text \<open>\<^verbatim>\<open>User.objects.all()\<close>\<close>

definition objects_all :: "database \<Rightarrow> user_row list" where
  "objects_all db = users db"

text \<open>
  \<^verbatim>\<open>.filter(id=k)\<close>. A lookup against \<^verbatim>\<open>None\<close> is \<^verbatim>\<open>IS NULL\<close>, which no primary key
  satisfies.
\<close>

definition filter_id :: "int option \<Rightarrow> user_row list \<Rightarrow> user_row list" where
  "filter_id i qs = (case i of None \<Rightarrow> [] | Some k \<Rightarrow> filter (\<lambda>u. user_id u = k) qs)"

text \<open>
  \<^verbatim>\<open>.select_related("profile")\<close> and \<^verbatim>\<open>.prefetch_related("application_set")\<close> only say how
  related objects are loaded (in the same query, or in one more \<^verbatim>\<open>SELECT\<close>); they change
  neither the rows selected nor the annotations.
\<close>

definition select_related :: "user_row list \<Rightarrow> user_row list" where
  "select_related qs = qs"

definition prefetch_related :: "user_row list \<Rightarrow> user_row list" where
  "prefetch_related qs = qs"

text \<open>
  \<^verbatim>\<open>.first()\<close>: the queryset has no ordering of its own, so it is ordered by primary key;
  the result is the first row, or \<^verbatim>\<open>None\<close> when there is none.
\<close>

definition first :: "annotated_user list \<Rightarrow> annotated_user option" where
  "first rows = (case sort_key (\<lambda>r. user_id (user r)) rows of [] \<Rightarrow> None | r # _ \<Rightarrow> Some r)"

section \<open>The views\<close>

text \<open>
  Evaluating a queryset sends \<^verbatim>\<open>SELECT\<close> statements to the database. The views are
  functions from the database before the call to the value returned and the database after.
\<close>

definition select :: "(database \<Rightarrow> 'a) \<Rightarrow> database \<Rightarrow> 'a \<times> database" where
  "select q db = (q db, db)"

text \<open>\<^verbatim>\<open>UserMeViewSet.get_object\<close> (lines 50 to 66).\<close>

definition get_object :: "request \<Rightarrow> database \<Rightarrow> annotated_user option \<times> database" where
  "get_object req =
     select (\<lambda>db.
       first
         (annotate get_object_workload db
           (prefetch_related
             (select_related
               (filter_id (request_user_id req) (objects_all db))))))"

text \<open>
  \<^verbatim>\<open>UserViewSet.get_queryset\<close> (lines 81 to 91), with the rows the queryset gives when the
  framework evaluates it.
\<close>

definition get_queryset :: "database \<Rightarrow> annotated_user list \<times> database" where
  "get_queryset =
     select (\<lambda>db.
       annotate get_queryset_workload db
         (prefetch_related (select_related (objects_all db))))"

section \<open>Example databases\<close>

text \<open>
  Three users: user 1 has two vps rows and two application rows, user 2 has neither, user 3
  has four vps rows and no application row.
\<close>

definition example_db :: database where
  "example_db =
     \<lparr>users = [\<lparr>user_id = 1, email = ''a@example.org''\<rparr>,
               \<lparr>user_id = 2, email = ''b@example.org''\<rparr>,
               \<lparr>user_id = 3, email = ''c@example.org''\<rparr>],
      vps = [\<lparr>vps_id = 1, vps_user_id = 1\<rparr>,
             \<lparr>vps_id = 2, vps_user_id = 1\<rparr>,
             \<lparr>vps_id = 3, vps_user_id = 3\<rparr>,
             \<lparr>vps_id = 4, vps_user_id = 3\<rparr>,
             \<lparr>vps_id = 5, vps_user_id = 3\<rparr>,
             \<lparr>vps_id = 6, vps_user_id = 3\<rparr>],
      applications = [\<lparr>application_id = 1, application_user_id = 1\<rparr>,
                      \<lparr>application_id = 2, application_user_id = 1\<rparr>]\<rparr>"

text \<open>One user with four vps rows and no application row.\<close>

definition other_db :: database where
  "other_db =
     \<lparr>users = [\<lparr>user_id = 7, email = ''g@example.org''\<rparr>],
      vps = [\<lparr>vps_id = 11, vps_user_id = 7\<rparr>,
             \<lparr>vps_id = 12, vps_user_id = 7\<rparr>,
             \<lparr>vps_id = 13, vps_user_id = 7\<rparr>,
             \<lparr>vps_id = 14, vps_user_id = 7\<rparr>],
      applications = []\<rparr>"

section \<open>What the views return\<close>

lemma get_queryset_rows:
  "fst (get_queryset db) = map (annotate_row get_queryset_workload db) (users db)"
  by (simp add: get_queryset_def select_def annotate_def prefetch_related_def
      select_related_def objects_all_def)

lemma first_Some_mem: "first rows = Some r \<Longrightarrow> r \<in> set rows"
proof -
  assume h: "first rows = Some r"
  then obtain rest where "sort_key (\<lambda>r. user_id (user r)) rows = r # rest"
    by (auto simp: first_def split: list.splits)
  then have "r \<in> set (sort_key (\<lambda>r. user_id (user r)) rows)"
    by simp
  then show ?thesis by simp
qed

lemma first_None: "first rows = None \<longleftrightarrow> rows = []"
proof
  assume "first rows = None"
  then have "sort_key (\<lambda>r. user_id (user r)) rows = []"
    by (auto simp: first_def split: list.splits)
  then have "length (sort_key (\<lambda>r. user_id (user r)) rows) = 0"
    by simp
  then show "rows = []" by simp
next
  assume "rows = []"
  then show "first rows = None" by (simp add: first_def)
qed

lemma get_object_Some:
  assumes "fst (get_object req db) = Some r"
  shows "\<exists>u. u \<in> set (users db) \<and> Some (user_id u) = request_user_id req
           \<and> r = annotate_row get_object_workload db u"
proof -
  from assms have "r \<in> set (annotate get_object_workload db
      (filter_id (request_user_id req) (users db)))"
    by (auto simp: get_object_def select_def prefetch_related_def select_related_def
        objects_all_def dest: first_Some_mem)
  then show ?thesis
    by (auto simp: annotate_def filter_id_def split: option.splits)
qed

lemma get_object_None:
  "fst (get_object req db) = None \<longleftrightarrow>
     request_user_id req \<notin> (\<lambda>u. Some (user_id u)) ` set (users db)"
  by (auto simp: get_object_def select_def prefetch_related_def select_related_def
      objects_all_def first_None annotate_def filter_id_def filter_empty_conv
      split: option.splits)

section \<open>The aggregates in closed form\<close>

lemma non_null_append: "non_null (xs @ ys) = non_null xs @ non_null ys"
  by (induction xs rule: non_null.induct) simp_all

lemma set_non_null: "set (non_null xs) = {x. Some x \<in> set xs}"
  by (induction xs rule: non_null.induct) auto

lemma length_non_null_const:
  "length (non_null (map (\<lambda>a. c) ys)) = (case c of None \<Rightarrow> 0 | Some _ \<Rightarrow> length ys)"
  by (induction ys) (auto split: option.splits)

lemma length_non_null_product_fst:
  "length (non_null (map (\<lambda>r. h (fst r)) (List.product xs ys)))
     = length (non_null (map h xs)) * length ys"
proof (induction xs)
  case Nil
  then show ?case by simp
next
  case (Cons x xs)
  have "length (non_null (map (\<lambda>r. h (fst r)) (map (Pair x) ys)))
          = (case h x of None \<Rightarrow> 0 | Some _ \<Rightarrow> length ys)"
    using length_non_null_const [of "h x" ys] by (simp add: comp_def)
  with Cons show ?case
    by (cases "h x") (simp_all add: non_null_append)
qed

lemma length_left_outer: "length (left_outer xs) = max 1 (length xs)"
  by (cases xs) (simp_all add: left_outer_def)

lemma non_null_left_outer: "non_null (map (map_option f) (left_outer xs)) = map f xs"
proof (cases xs)
  case Nil
  then show ?thesis by (simp add: left_outer_def)
next
  case (Cons y ys)
  have "non_null (map (map_option f) (map Some zs)) = map f zs" for zs
    by (induction zs) simp_all
  with Cons show ?thesis by (simp add: left_outer_def del: list.map)
qed

lemma left_outer_not_Nil: "left_outer xs \<noteq> []"
  by (cases xs) (simp_all add: left_outer_def)

lemma set_non_null_product_snd:
  assumes "xs \<noteq> []"
  shows "set (non_null (map (\<lambda>r. h (snd r)) (List.product xs ys))) = set (non_null (map h ys))"
  using assms by (auto simp: set_non_null image_iff) (metis last_in_set)+

lemma vps_count_annotate_row:
  "vps_count (annotate_row e db u) =
     int (length (filter (\<lambda>v. vps_user_id v = user_id u) (vps db))
          * max 1 (length (filter (\<lambda>a. application_user_id a = user_id u) (applications db))))"
  by (simp add: annotate_row_def Let_def Count_def joined_rows_def
      length_non_null_product_fst non_null_left_outer length_left_outer)

lemma applications_deployed_annotate_row:
  "applications_deployed (annotate_row e db u) =
     int (card (application_id ` {a \<in> set (applications db). application_user_id a = user_id u}))"
proof -
  have "set (non_null (map (\<lambda>r. map_option application_id (snd r)) (joined_rows db u)))
        = application_id ` {a \<in> set (applications db). application_user_id a = user_id u}"
    unfolding joined_rows_def
    by (simp add: set_non_null_product_snd [OF left_outer_not_Nil] non_null_left_outer)
  then show ?thesis
    by (simp add: annotate_row_def Let_def Count_distinct_def length_remdups_card_conv)
qed

lemma workload_annotate_row:
  "workload (annotate_row e db u) = evaluate e (vps_count (annotate_row e db u))"
  by (simp add: annotate_row_def Let_def)

lemma user_annotate_row: "user (annotate_row e db u) = u"
  by (simp add: annotate_row_def Let_def)

lemma card_user_applications:
  "card (application_id ` {a \<in> set (applications db). application_user_id a = k})
     = card {a \<in> set (applications db). application_user_id a = k}"
  by (rule card_image) (auto simp: inj_on_def)

section \<open>The workload classifier\<close>

lemma evaluate_get_object_workload:
  "evaluate get_object_workload n =
     (if 1 \<le> n \<and> n \<le> 3 then ''EASY''
      else if 4 \<le> n \<and> n \<le> 8 then ''MEDIUM''
      else if 9 \<le> n then ''HARD''
      else ''VERY_EASY'')"
  by (simp add: get_object_workload_def)

lemma evaluate_get_queryset_workload:
  "evaluate get_queryset_workload n =
     (if 1 \<le> n \<and> n \<le> 3 then ''EASY''
      else if 4 \<le> n \<and> n \<le> 8 then ''MEDIUM''
      else if 9 \<le> n then ''HARD''
      else ''VERY_EASY'')"
  by (simp add: get_queryset_workload_def)

lemma spec_classify_cases:
  "spec_classify n =
     (if 1 \<le> n \<and> n \<le> 3 then ''EASY''
      else if 4 \<le> n \<and> n \<le> 8 then ''MEDIUM''
      else if 9 \<le> n then ''HARD''
      else ''VERY_EASY'')"
  by (simp add: spec_classify_def spec_rules_def)

section \<open>The claims\<close>

text \<open>
  C1. For every non-negative count \<open>n\<close>, the classifier of both views returns the label of
  the spec's ordered rule set evaluated first match wins: \<open>VERY_EASY\<close> for \<open>n = 0\<close>,
  \<open>EASY\<close> for \<open>1 \<le> n \<le> 3\<close> (so \<open>3\<close> is \<open>EASY\<close>, not \<open>MEDIUM\<close>), \<open>MEDIUM\<close> for
  \<open>4 \<le> n \<le> 8\<close> and \<open>HARD\<close> for \<open>n \<ge> 9\<close>.
\<close>

theorem workload_classifier_rules:
  assumes "0 \<le> n"
  shows "evaluate get_object_workload n = spec_classify n
       \<and> evaluate get_queryset_workload n = spec_classify n
       \<and> spec_classify n =
          (if n = 0 then ''VERY_EASY''
           else if n \<le> 3 then ''EASY''
           else if n \<le> 8 then ''MEDIUM''
           else ''HARD'')"
  using assms
  by (simp add: evaluate_get_object_workload evaluate_get_queryset_workload spec_classify_cases)

theorem workload_classifier_rules_witness:
  "(0::int) \<le> 3
   \<and> evaluate get_object_workload 3 = ''EASY''
   \<and> evaluate get_queryset_workload 3 = ''EASY''
   \<and> spec_classify 3 = ''EASY''"
proof -
  have h: "(0::int) \<le> 3" by simp
  show ?thesis using workload_classifier_rules [OF h] by simp
qed

text \<open>
  C2. The claim is that \<open>vps_count\<close> is the number of vps rows of the user whatever the
  number of application rows. The code counts the rows of the join of both relations, and
  only the application count is made distinct: for user 1 of the example database, who has
  two vps rows and two application rows, both views give \<open>vps_count = 4\<close> and so the
  workload \<open>MEDIUM\<close>, where the two vps rows would give \<open>EASY\<close>. User 3, with four vps
  rows and no application row, gets \<open>vps_count = 4\<close>.
\<close>

theorem vps_count_inflated_example:
  "map (\<lambda>r. (user_id (user r), vps_count r, workload r)) (fst (get_queryset example_db))
     = [(1, 4, ''MEDIUM''), (2, 0, ''VERY_EASY''), (3, 4, ''MEDIUM'')]
   \<and> map_option (\<lambda>r. (user_id (user r), vps_count r, workload r))
        (fst (get_object \<lparr>request_user_id = Some 1\<rparr> example_db)) = Some (1, 4, ''MEDIUM'')
   \<and> length (filter (\<lambda>v. vps_user_id v = 1) (vps example_db)) = 2
   \<and> length (filter (\<lambda>a. application_user_id a = 1) (applications example_db)) = 2
   \<and> evaluate get_queryset_workload 2 = ''EASY''"
  by code_simp

text \<open>
  C3. The classifier is total and single-valued: for every count \<open>n\<close> (in particular every
  non-negative one) each of the two expressions has exactly one value among the four
  labels, the four labels are pairwise different, and the \<open>workload\<close> attribute of every
  row read by either view is one of the four labels.
\<close>

theorem workload_total_single_valued:
  "(\<exists>!l. l \<in> set workload_labels \<and> evaluate get_object_workload n = l)
   \<and> (\<exists>!l. l \<in> set workload_labels \<and> evaluate get_queryset_workload n = l)
   \<and> distinct workload_labels
   \<and> workload ` set (fst (get_queryset db)) \<subseteq> set workload_labels
   \<and> workload ` set_option (fst (get_object req db)) \<subseteq> set workload_labels"
proof -
  have a: "evaluate get_object_workload k \<in> set workload_labels" for k
    by (simp add: evaluate_get_object_workload workload_labels_def)
  have b: "evaluate get_queryset_workload k \<in> set workload_labels" for k
    by (simp add: evaluate_get_queryset_workload workload_labels_def)
  have c: "distinct workload_labels"
    by (simp add: workload_labels_def)
  have d: "workload ` set (fst (get_queryset db)) \<subseteq> set workload_labels"
    using b by (auto simp: get_queryset_def select_def annotate_def annotate_row_def Let_def)
  have e: "workload ` set_option (fst (get_object req db)) \<subseteq> set workload_labels"
  proof (cases "fst (get_object req db)")
    case None
    then show ?thesis by simp
  next
    case (Some r)
    then obtain u where "r = annotate_row get_object_workload db u"
      using get_object_Some [OF Some] by blast
    with a Some show ?thesis
      by (simp add: annotate_row_def Let_def)
  qed
  from a b c d e show ?thesis by blast
qed

text \<open>
  C5. For every stored user, the listing has a row of that user, and the own-profile view
  returns a row for a request whose user is stored; in each such row
  \<open>applications_deployed\<close> is the number of distinct application rows associated with
  that user, however many vps rows the join pairs them with. Every row of the listing is
  the row of a stored user and carries that user's number.
\<close>

theorem applications_deployed_counts_distinct_records:
  "(\<forall>u \<in> set (users db). \<exists>r \<in> set (fst (get_queryset db)).
       user r = u
       \<and> applications_deployed r =
           int (card {a \<in> set (applications db). application_user_id a = user_id u}))
   \<and> (\<forall>r \<in> set (fst (get_queryset db)).
       user r \<in> set (users db)
       \<and> applications_deployed r =
           int (card {a \<in> set (applications db). application_user_id a = user_id (user r)}))
   \<and> (\<forall>k. request_user_id req = Some k \<and> k \<in> user_id ` set (users db) \<longrightarrow>
       (\<exists>r. fst (get_object req db) = Some r
            \<and> user_id (user r) = k
            \<and> applications_deployed r =
                int (card {a \<in> set (applications db). application_user_id a = k})))"
proof -
  have row: "applications_deployed (annotate_row e db u) =
      int (card {a \<in> set (applications db). application_user_id a = user_id u})" for e u
    by (simp add: applications_deployed_annotate_row card_user_applications)
  have listed: "\<exists>r \<in> set (fst (get_queryset db)). user r = u
       \<and> applications_deployed r =
           int (card {a \<in> set (applications db). application_user_id a = user_id u})"
    if "u \<in> set (users db)" for u
  proof -
    from that have "annotate_row get_queryset_workload db u \<in> set (fst (get_queryset db))"
      by (simp add: get_queryset_rows)
    then show ?thesis
      using row [of get_queryset_workload u] user_annotate_row [of get_queryset_workload db u]
      by blast
  qed
  have rows: "user r \<in> set (users db)
       \<and> applications_deployed r =
           int (card {a \<in> set (applications db). application_user_id a = user_id (user r)})"
    if "r \<in> set (fst (get_queryset db))" for r
  proof -
    from that obtain u where "u \<in> set (users db)" and "r = annotate_row get_queryset_workload db u"
      by (auto simp: get_queryset_rows)
    then show ?thesis
      using row [of get_queryset_workload u] by (simp add: user_annotate_row)
  qed
  have own: "\<exists>r. fst (get_object req db) = Some r
            \<and> user_id (user r) = k
            \<and> applications_deployed r =
                int (card {a \<in> set (applications db). application_user_id a = k})"
    if k: "request_user_id req = Some k" and stored: "k \<in> user_id ` set (users db)" for k
  proof -
    from k stored have "fst (get_object req db) \<noteq> None"
      by (auto simp: get_object_None image_iff)
    then obtain r where r: "fst (get_object req db) = Some r"
      by auto
    from get_object_Some [OF r] k obtain u where
      "user_id u = k" and "r = annotate_row get_object_workload db u"
      by auto
    with r show ?thesis
      using row [of get_object_workload u] by (simp add: user_annotate_row)
  qed
  from listed rows own show ?thesis by blast
qed

text \<open>
  The rule for user 1 of the example database, who has two application rows and is paired
  with two vps rows in the join.
\<close>

theorem applications_deployed_counts_distinct_records_witness:
  "\<lparr>user_id = 1, email = ''a@example.org''\<rparr> \<in> set (users example_db)
   \<and> (\<exists>r \<in> set (fst (get_queryset example_db)).
        user r = \<lparr>user_id = 1, email = ''a@example.org''\<rparr> \<and> applications_deployed r = 2)
   \<and> request_user_id \<lparr>request_user_id = Some 1\<rparr> = Some 1
   \<and> (1::int) \<in> user_id ` set (users example_db)
   \<and> (\<exists>r. fst (get_object \<lparr>request_user_id = Some 1\<rparr> example_db) = Some r
        \<and> user_id (user r) = 1 \<and> applications_deployed r = 2)"
proof -
  let ?u = "\<lparr>user_id = 1, email = ''a@example.org''\<rparr>"
  let ?q = "\<lparr>request_user_id = Some 1\<rparr>"
  have u: "?u \<in> set (users example_db)"
    by (simp add: example_db_def)
  have q: "request_user_id ?q = Some 1"
    by simp
  have k: "(1::int) \<in> user_id ` set (users example_db)"
    by (simp add: example_db_def)
  have "{a \<in> set (applications example_db). application_user_id a = 1}
        = set (filter (\<lambda>a. application_user_id a = 1) (applications example_db))"
    by simp
  then have "card {a \<in> set (applications example_db). application_user_id a = 1}
        = length (remdups (filter (\<lambda>a. application_user_id a = 1) (applications example_db)))"
    by (simp only: length_remdups_card_conv)
  also have "\<dots> = 2"
    by code_simp
  finally have n: "int (card {a \<in> set (applications example_db). application_user_id a = 1}) = 2"
    by simp
  note t = applications_deployed_counts_distinct_records [of example_db ?q]
  from t u n have a: "\<exists>r \<in> set (fst (get_queryset example_db)).
        user r = ?u \<and> applications_deployed r = 2"
    by fastforce
  from t q k n have b: "\<exists>r. fst (get_object ?q example_db) = Some r
        \<and> user_id (user r) = 1 \<and> applications_deployed r = 2"
    by fastforce
  from u a q k b show ?thesis by blast
qed

text \<open>
  C6. The label is a function of the count alone: for any two rows read by either view, from
  any two databases and requests, equal \<open>vps_count\<close> gives equal \<open>workload\<close>. Nothing else
  of the database, the user or the request reaches the label.
\<close>

theorem workload_depends_only_on_count:
  assumes "r \<in> set (fst (get_queryset db)) \<union> set_option (fst (get_object req db))"
    and "r' \<in> set (fst (get_queryset db')) \<union> set_option (fst (get_object req' db'))"
    and "vps_count r = vps_count r'"
  shows "workload r = workload r'"
proof -
  have row: "workload x = evaluate get_object_workload (vps_count x)"
    if "x \<in> set (fst (get_queryset d)) \<union> set_option (fst (get_object q d))" for x d q
  proof -
    from that consider "x \<in> set (fst (get_queryset d))" | "fst (get_object q d) = Some x"
      by auto
    then show ?thesis
    proof cases
      case 1
      then show ?thesis
        by (auto simp: get_queryset_rows workload_annotate_row
            evaluate_get_object_workload evaluate_get_queryset_workload)
    next
      case 2
      from get_object_Some [OF 2] show ?thesis
        by (auto simp: workload_annotate_row)
    qed
  qed
  from row [OF assms(1)] row [OF assms(2)] assms(3) show ?thesis by simp
qed

text \<open>
  The rule at two rows of different users, databases and views, both with count 4.
\<close>

theorem workload_depends_only_on_count_witness:
  "\<lparr>user = \<lparr>user_id = 1, email = ''a@example.org''\<rparr>, vps_count = 4,
      workload = ''MEDIUM'', applications_deployed = 2\<rparr>
     \<in> set (fst (get_queryset example_db))
   \<and> fst (get_object \<lparr>request_user_id = Some 7\<rparr> other_db) =
       Some \<lparr>user = \<lparr>user_id = 7, email = ''g@example.org''\<rparr>, vps_count = 4,
             workload = ''MEDIUM'', applications_deployed = 0\<rparr>
   \<and> workload \<lparr>user = \<lparr>user_id = 1, email = ''a@example.org''\<rparr>, vps_count = 4,
         workload = ''MEDIUM'', applications_deployed = 2\<rparr>
     = workload \<lparr>user = \<lparr>user_id = 7, email = ''g@example.org''\<rparr>, vps_count = 4,
         workload = ''MEDIUM'', applications_deployed = 0\<rparr>"
proof -
  let ?r = "\<lparr>user = \<lparr>user_id = 1, email = ''a@example.org''\<rparr>, vps_count = 4,
      workload = ''MEDIUM'', applications_deployed = 2\<rparr>"
  let ?r' = "\<lparr>user = \<lparr>user_id = 7, email = ''g@example.org''\<rparr>, vps_count = 4,
      workload = ''MEDIUM'', applications_deployed = 0\<rparr>"
  have m: "?r \<in> set (fst (get_queryset example_db))"
    by code_simp
  have g: "fst (get_object \<lparr>request_user_id = Some 7\<rparr> other_db) = Some ?r'"
    by code_simp
  have "workload ?r = workload ?r'"
    using workload_depends_only_on_count
      [of ?r example_db "\<lparr>request_user_id = None\<rparr>" ?r' other_db "\<lparr>request_user_id = Some 7\<rparr>"]
      m g
    by simp
  with m g show ?thesis by blast
qed

text \<open>
  C8. The workload expression of \<^verbatim>\<open>UserMeViewSet.get_object\<close> and the one of
  \<^verbatim>\<open>UserViewSet.get_queryset\<close> are the same function: at every count both give the same
  label.
\<close>

theorem workload_expressions_agree:
  "evaluate get_object_workload n = evaluate get_queryset_workload n"
  by (simp add: evaluate_get_object_workload evaluate_get_queryset_workload)

text \<open>
  C9. In every row read by either view, the count given to the workload expression is the
  \<open>Count\<close> aggregate and is never negative, so the expression is only evaluated on its
  documented domain.
\<close>

theorem vps_count_nonnegative:
  "(\<forall>r \<in> set (fst (get_queryset db)).
      0 \<le> vps_count r \<and> workload r = evaluate get_queryset_workload (vps_count r))
   \<and> (\<forall>r \<in> set_option (fst (get_object req db)).
      0 \<le> vps_count r \<and> workload r = evaluate get_object_workload (vps_count r))"
proof -
  have row: "0 \<le> vps_count (annotate_row e db u)
      \<and> workload (annotate_row e db u) = evaluate e (vps_count (annotate_row e db u))" for e u
    by (simp add: annotate_row_def Let_def Count_def)
  have "0 \<le> vps_count r \<and> workload r = evaluate get_object_workload (vps_count r)"
    if "fst (get_object req db) = Some r" for r
    using get_object_Some [OF that] row by blast
  then show ?thesis
    using row by (auto simp: get_queryset_rows)
qed

text \<open>
  The rule on the example database, where both views return a row.
\<close>

theorem vps_count_nonnegative_witness:
  "(\<exists>r. r \<in> set (fst (get_queryset example_db)) \<and> 0 \<le> vps_count r
        \<and> workload r = evaluate get_queryset_workload (vps_count r))
   \<and> (\<exists>r. r \<in> set_option (fst (get_object \<lparr>request_user_id = Some 1\<rparr> example_db))
        \<and> 0 \<le> vps_count r \<and> workload r = evaluate get_object_workload (vps_count r))"
proof -
  have a: "fst (get_queryset example_db) \<noteq> []"
    by (simp add: get_queryset_rows example_db_def)
  have b: "fst (get_object \<lparr>request_user_id = Some 1\<rparr> example_db) \<noteq> None"
    by (simp add: get_object_None example_db_def image_iff)
  from a obtain r where "r \<in> set (fst (get_queryset example_db))"
    by (cases "fst (get_queryset example_db)") auto
  moreover from b obtain r' where
    "r' \<in> set_option (fst (get_object \<lparr>request_user_id = Some 1\<rparr> example_db))"
    by auto
  ultimately show ?thesis
    using vps_count_nonnegative [of example_db "\<lparr>request_user_id = Some 1\<rparr>"] by blast
qed

text \<open>
  C10. For a request of the authenticated user with primary key \<open>k\<close>,
  \<^verbatim>\<open>UserMeViewSet.get_object\<close> returns either no record, exactly when no stored user has
  primary key \<open>k\<close>, or a stored user whose primary key is \<open>k\<close>; never the record of
  another user.
\<close>

theorem get_object_own_record:
  assumes "request_user_id req = Some k"
  shows "(fst (get_object req db) = None \<and> k \<notin> user_id ` set (users db))
       \<or> (\<exists>r. fst (get_object req db) = Some r \<and> user r \<in> set (users db) \<and> user_id (user r) = k)"
proof (cases "fst (get_object req db)")
  case None
  then have "request_user_id req \<notin> (\<lambda>u. Some (user_id u)) ` set (users db)"
    by (simp add: get_object_None)
  with assms None show ?thesis by (auto simp: image_iff)
next
  case (Some r)
  from get_object_Some [OF Some] assms Some show ?thesis
    by (auto simp: user_annotate_row)
qed

text \<open>
  The rule for user 3 of the example database, and for a primary key that is not stored.
\<close>

theorem get_object_own_record_witness:
  "request_user_id \<lparr>request_user_id = Some 3\<rparr> = Some 3
   \<and> map_option (\<lambda>r. user_id (user r)) (fst (get_object \<lparr>request_user_id = Some 3\<rparr> example_db)) = Some 3
   \<and> request_user_id \<lparr>request_user_id = Some 9\<rparr> = Some 9
   \<and> fst (get_object \<lparr>request_user_id = Some 9\<rparr> example_db) = None"
proof -
  have h3: "request_user_id \<lparr>request_user_id = Some 3\<rparr> = Some 3" by simp
  have h9: "request_user_id \<lparr>request_user_id = Some 9\<rparr> = Some 9" by simp
  have m3: "(3::int) \<in> user_id ` set (users example_db)"
    by (simp add: example_db_def)
  have m9: "(9::int) \<notin> user_id ` set (users example_db)"
    by (simp add: example_db_def)
  from get_object_own_record [OF h3, of example_db] m3
  have "map_option (\<lambda>r. user_id (user r)) (fst (get_object \<lparr>request_user_id = Some 3\<rparr> example_db)) = Some 3"
    by auto
  moreover from get_object_own_record [OF h9, of example_db] m9
  have "fst (get_object \<lparr>request_user_id = Some 9\<rparr> example_db) = None"
    by (auto simp: image_iff)
  ultimately show ?thesis by simp
qed

end
